theory Spec2Isabelle
  imports Main
begin

section \<open>Data model (orders/models.py)\<close>

text \<open>
  Money columns are \<open>DecimalField(max_digits=10, decimal_places=2)\<close>; an amount is
  modelled as its number of hundredths, an \<open>int\<close>, so that \<open>Decimal(qty) * unit_price\<close>
  is exact integer multiplication. \<open>PositiveIntegerField\<close> is a \<open>nat\<close>. Points in time
  are integers.

  A column of ten digits, two of them decimals, holds the amounts from -99999999.99 to
  99999999.99: \<open>fits_total\<close>. The range is modelled where a view can leave it from a state
  within it: in \<open>add_item\<close>, which raises \<open>Order.total\<close>. \<open>remove_item\<close> lowers the total of
  an order that holds the item, and the other views do not write it. The upper bound
  2147483647 of \<open>PositiveIntegerField\<close> is not modelled.
\<close>

type_synonym timestamp = int
type_synonym money = int

definition max_total :: money where
  "max_total = 9999999999"

definition fits_total :: "money \<Rightarrow> bool" where
  "fits_total t = (- max_total \<le> t \<and> t \<le> max_total)"

datatype order_status = PENDING | COMPLETED | CANCELED

datatype change_type =
  CHANGE_UPDATE | CHANGE_COMPLETED | CHANGE_CANCELED | CHANGE_DELETE | CHANGE_CREATED

text \<open>The columns of \<open>Order\<close> besides the primary key, which is the key of the table.\<close>

record order =
  customer_name :: string
  total :: money
  status :: order_status
  created_at :: timestamp
  last_change_at :: timestamp
  last_change_type :: change_type

record order_item =
  item_pk :: nat
  order_id :: nat
  product_id :: nat
  quantity :: nat
  price :: money

text \<open>The property \<open>OrderItem.total\<close>.\<close>

definition item_total :: "order_item \<Rightarrow> money" where
  "item_total item = int (quantity item) * price item"

text \<open>
  Modelled from the spec: the models \<open>Product\<close> (products/models.py) and
  \<open>InventoryMovement\<close> (inventory/models.py) are imported by the views and are not among
  the sources. The fields are the ones the views read and write; the spec gives a product
  a name, a price and one integer stock counter, and a movement a product, a positive
  quantity, a type, a reason and a timestamp set when the row is created.
\<close>

record product =
  product_name :: string
  product_price :: money
  stock :: int

record inventory_movement =
  mv_product :: nat
  mv_quantity :: nat
  movement_type :: string
  reason :: string
  timestamp :: timestamp

text \<open>
  The database: the tables \<open>Product\<close> and \<open>Order\<close> by primary key, the rows of \<open>OrderItem\<close>
  in primary key order with the next value of its \<open>AutoField\<close>, and the movement log.
  \<open>enforces_max_digits\<close> is the one property of the database backend the views depend on:
  whether a write of a decimal beyond the column's digits is refused (PostgreSQL, MySQL)
  or stored (SQLite, where reading the value back fails).
\<close>

record db =
  products :: "nat \<rightharpoonup> product"
  orders :: "nat \<rightharpoonup> order"
  order_items :: "order_item list"
  next_item_pk :: nat
  movements :: "inventory_movement list"
  enforces_max_digits :: bool

text \<open>One entry of the list \<open>insufficient\<close> that \<open>complete\<close> reports.\<close>

record shortfall =
  sf_product_id :: nat
  sf_name :: string
  requested :: nat
  available :: int

text \<open>
  Every response that is not a 200 or a 204. The views answer 400 with a \<open>detail\<close> text;
  the constructors name them as the spec's failure kinds do:
  \<open>AlreadyCompleted\<close> is "Order is already completed.", \<open>InvalidTransition\<close> is
  "Canceled orders cannot be completed." and "Completed orders cannot be canceled.",
  \<open>AlreadyCanceled\<close> is "Order is already canceled.", \<open>OrderClosed\<close> is "You can't modify
  a completed/canceled order.", \<open>InsufficientStock\<close> carries the list \<open>items\<close> of
  \<open>complete\<close>, \<open>InsufficientStockFor\<close> the product name and \<open>available\<close> of \<open>add_item\<close>,
  \<open>ItemNotFound\<close> is "Product ... is not in this order.". \<open>Http404\<close> is what \<open>get_object\<close>
  raises, \<open>ValidationError\<close> what \<open>is_valid(raise_exception=True)\<close> raises,
  \<open>DoesNotExist\<close> what \<open>Product.objects.get\<close> raises, \<open>ValueError\<close> and \<open>DatabaseError\<close>
  what \<open>Model.save\<close> raises, \<open>DataError\<close> what a backend raises that refuses a value beyond
  its column, \<open>InvalidOperation\<close> what the conversion of a stored decimal of more than
  \<open>max_digits\<close> digits raises.
\<close>

datatype error =
  Http404
| AlreadyCompleted
| InvalidTransition
| AlreadyCanceled
| OrderClosed
| InsufficientStock "shortfall list"
| InsufficientStockFor string int
| ItemNotFound string
| ValidationError
| DoesNotExist
| ValueError "string list"
| DatabaseError
| DataError
| InvalidOperation

text \<open>A 200 carries the serialized order, the 204 of \<open>destroy\<close> carries nothing.\<close>

datatype response = OrderData order | NoContent

type_synonym outcome = "(error + response) \<times> db"

section \<open>The ORM calls the views make\<close>

definition get_object :: "db \<Rightarrow> nat \<Rightarrow> error + order" where
  "get_object db pk = (case orders db pk of None \<Rightarrow> Inl Http404 | Some order \<Rightarrow> Inr order)"

text \<open>The concrete columns of \<open>Order\<close> that \<open>save(update_fields=...)\<close> accepts.\<close>

definition order_columns :: "string list" where
  "order_columns =
     [''customer_name'', ''total'', ''status'', ''created_at'', ''last_change_at'',
      ''last_change_type'']"

definition copy_field :: "order \<Rightarrow> string \<Rightarrow> order \<Rightarrow> order" where
  "copy_field inst f row =
     (if f = ''customer_name'' then row\<lparr>customer_name := customer_name inst\<rparr>
      else if f = ''total'' then row\<lparr>total := total inst\<rparr>
      else if f = ''status'' then row\<lparr>status := status inst\<rparr>
      else if f = ''created_at'' then row\<lparr>created_at := created_at inst\<rparr>
      else if f = ''last_change_at'' then row\<lparr>last_change_at := last_change_at inst\<rparr>
      else if f = ''last_change_type'' then row\<lparr>last_change_type := last_change_type inst\<rparr>
      else row)"

text \<open>
  \<open>instance.save(update_fields=fs)\<close>: Django raises \<open>ValueError\<close> when a name of \<open>fs\<close> is
  not a concrete column of the model, before it touches the database; otherwise it writes
  the named columns of the in-memory instance to the row of that primary key, and raises
  \<open>DatabaseError\<close> when no row was updated.
\<close>

definition save :: "nat \<Rightarrow> order \<Rightarrow> string list \<Rightarrow> db \<Rightarrow> error + db" where
  "save pk inst update_fields db =
     (let non_model_fields = filter (\<lambda>f. f \<notin> set order_columns) update_fields in
      if non_model_fields \<noteq> [] then Inl (ValueError non_model_fields)
      else case orders db pk of
             None \<Rightarrow> Inl DatabaseError
           | Some row \<Rightarrow>
               Inr (db\<lparr>orders := (orders db)(pk \<mapsto> foldr (copy_field inst) update_fields row)\<rparr>))"

text \<open>\<open>Product.objects.filter(pk=pid).update(stock=F("stock") + delta)\<close>\<close>

definition update_stock :: "nat \<Rightarrow> int \<Rightarrow> db \<Rightarrow> db" where
  "update_stock pid delta db =
     (case products db pid of
        None \<Rightarrow> db
      | Some p \<Rightarrow> db\<lparr>products := (products db)(pid \<mapsto> p\<lparr>stock := stock p + delta\<rparr>)\<rparr>)"

text \<open>\<open>InventoryMovement.objects.create(...)\<close>, at the time \<open>now\<close> of the request.\<close>

definition create_movement :: "nat \<Rightarrow> nat \<Rightarrow> string \<Rightarrow> string \<Rightarrow> timestamp \<Rightarrow> db \<Rightarrow> db" where
  "create_movement pid qty mtype why now db =
     db\<lparr>movements := movements db @
        [\<lparr>mv_product = pid, mv_quantity = qty, movement_type = mtype, reason = why,
          timestamp = now\<rparr>]\<rparr>"

text \<open>\<open>Order.objects.filter(pk=pk).update(total=F("total") + delta)\<close>\<close>

definition update_total :: "nat \<Rightarrow> money \<Rightarrow> db \<Rightarrow> db" where
  "update_total pk delta db =
     (case orders db pk of
        None \<Rightarrow> db
      | Some row \<Rightarrow> db\<lparr>orders := (orders db)(pk \<mapsto> row\<lparr>total := total row + delta\<rparr>)\<rparr>)"

text \<open>
  Whether the total stored for an order is within its column, and \<open>order.refresh_from_db()\<close>
  as \<open>add_item\<close> calls it: the row is read again, and a total beyond the column's digits
  (which only a backend that stores it can hold) fails to convert.
\<close>

definition total_in_range :: "db \<Rightarrow> nat \<Rightarrow> bool" where
  "total_in_range db pk =
     (case orders db pk of None \<Rightarrow> True | Some row \<Rightarrow> fits_total (total row))"

definition refresh_from_db :: "db \<Rightarrow> nat \<Rightarrow> error + order" where
  "refresh_from_db db pk =
     (case orders db pk of
        None \<Rightarrow> Inl DoesNotExist
      | Some row \<Rightarrow> if fits_total (total row) then Inr row else Inl InvalidOperation)"

text \<open>\<open>OrderItem.objects.filter(order=order, product=product).first()\<close>: the matching row of
  the lowest primary key.\<close>

definition first_item :: "db \<Rightarrow> nat \<Rightarrow> nat \<Rightarrow> order_item option" where
  "first_item db pk pid =
     find (\<lambda>item. order_id item = pk \<and> product_id item = pid) (order_items db)"

text \<open>\<open>OrderItem.objects.filter(pk=ipk).update(quantity=F("quantity") + n)\<close> and
  \<open>... - n\<close>.\<close>

definition increase_quantity :: "nat \<Rightarrow> nat \<Rightarrow> db \<Rightarrow> db" where
  "increase_quantity ipk n db =
     db\<lparr>order_items :=
        map (\<lambda>item. if item_pk item = ipk then item\<lparr>quantity := quantity item + n\<rparr> else item)
          (order_items db)\<rparr>"

definition decrease_quantity :: "nat \<Rightarrow> nat \<Rightarrow> db \<Rightarrow> db" where
  "decrease_quantity ipk n db =
     db\<lparr>order_items :=
        map (\<lambda>item. if item_pk item = ipk then item\<lparr>quantity := quantity item - n\<rparr> else item)
          (order_items db)\<rparr>"

text \<open>\<open>OrderItem.objects.create(order=..., product=..., quantity=..., price=...)\<close>\<close>

definition create_item :: "nat \<Rightarrow> nat \<Rightarrow> nat \<Rightarrow> money \<Rightarrow> db \<Rightarrow> db" where
  "create_item pk pid qty unit_price db =
     db\<lparr>order_items := order_items db @
        [\<lparr>item_pk = next_item_pk db, order_id = pk, product_id = pid, quantity = qty,
          price = unit_price\<rparr>],
        next_item_pk := Suc (next_item_pk db)\<rparr>"

text \<open>\<open>item.delete()\<close>\<close>

definition delete_item :: "nat \<Rightarrow> db \<Rightarrow> db" where
  "delete_item ipk db = db\<lparr>order_items := filter (\<lambda>item. item_pk item \<noteq> ipk) (order_items db)\<rparr>"

text \<open>
  \<open>order.items.select_related("product").all()\<close>: the items of the order, each joined with
  its product (an inner join, the foreign key is not nullable).
\<close>

definition items_of :: "db \<Rightarrow> nat \<Rightarrow> order_item list" where
  "items_of db pk = filter (\<lambda>item. order_id item = pk) (order_items db)"

fun select_related :: "(nat \<rightharpoonup> product) \<Rightarrow> order_item list \<Rightarrow> (order_item \<times> product) list" where
  "select_related ps [] = []"
| "select_related ps (item # rest) =
     (case ps (product_id item) of
        None \<Rightarrow> select_related ps rest
      | Some p \<Rightarrow> (item, p) # select_related ps rest)"

definition items_select_related :: "db \<Rightarrow> nat \<Rightarrow> (order_item \<times> product) list" where
  "items_select_related db pk = select_related (products db) (items_of db pk)"

text \<open>
  Modelled from the spec: the serializers \<open>OrderItemWriteSerializer\<close> and
  \<open>OrderItemDecreaseSerializer\<close> (orders/serializers.py) are not among the sources. The
  spec has them reject a non-positive quantity; the product of the payload is an existing
  product.
\<close>

definition is_valid :: "db \<Rightarrow> nat \<Rightarrow> nat \<Rightarrow> bool" where
  "is_valid db pid qty = (products db pid \<noteq> None \<and> 0 < qty)"

section \<open>The views (orders/views.py)\<close>

subsection \<open>complete\<close>

text \<open>The query \<open>exists_mv\<close> of the first loop.\<close>

definition exists_mv :: "db \<Rightarrow> nat \<Rightarrow> timestamp \<Rightarrow> bool" where
  "exists_mv db pid since =
     list_ex (\<lambda>m. mv_product m = pid \<and> movement_type m = ''salida'' \<and> reason m = ''venta''
                \<and> since \<le> timestamp m) (movements db)"

text \<open>The first loop: \<open>already_applied\<close> stays \<open>True\<close> unless an item has no such movement.\<close>

fun already_applied :: "db \<Rightarrow> order \<Rightarrow> (order_item \<times> product) list \<Rightarrow> bool" where
  "already_applied db order [] = True"
| "already_applied db order ((item, p) # rest) =
     (if \<not> exists_mv db (product_id item) (created_at order) then False
      else already_applied db order rest)"

text \<open>The second loop: the list \<open>insufficient\<close>, and the dictionary it appends.\<close>

definition shortfall_of :: "order_item \<Rightarrow> product \<Rightarrow> shortfall" where
  "shortfall_of item p =
     \<lparr>sf_product_id = product_id item, sf_name = product_name p,
      requested = quantity item, available = stock p\<rparr>"

fun insufficient :: "(order_item \<times> product) list \<Rightarrow> shortfall list" where
  "insufficient [] = []"
| "insufficient ((item, p) # rest) =
     (if stock p < int (quantity item) then shortfall_of item p # insufficient rest
      else insufficient rest)"

text \<open>The third loop: the stock update and the movement of every item.\<close>

fun reserve_items :: "timestamp \<Rightarrow> (order_item \<times> product) list \<Rightarrow> db \<Rightarrow> db" where
  "reserve_items now [] db = db"
| "reserve_items now ((item, p) # rest) db =
     reserve_items now rest
       (create_movement (product_id item) (quantity item) ''salida'' ''venta'' now
          (update_stock (product_id item) (- int (quantity item)) db))"

text \<open>
  The view. The early return with the list \<open>insufficient\<close> is taken when the block under
  \<open>if not already_applied\<close> is entered and the list is not empty; otherwise that block, when
  entered, runs the third loop; the assignments to the order and \<open>order.save\<close> follow in both
  cases. An exception inside \<open>transaction.atomic()\<close> rolls the writes back.
\<close>

definition complete :: "timestamp \<Rightarrow> nat \<Rightarrow> db \<Rightarrow> outcome" where
  "complete now pk db =
     (case get_object db pk of
        Inl e \<Rightarrow> (Inl e, db)
      | Inr order \<Rightarrow>
          if status order = COMPLETED then (Inl AlreadyCompleted, db)
          else if status order = CANCELED then (Inl InvalidTransition, db)
          else
            let lines = items_select_related db pk;
                applied = already_applied db order lines
            in if \<not> applied \<and> insufficient lines \<noteq> []
               then (Inl (InsufficientStock (insufficient lines)), db)
               else
                 let db1 = (if \<not> applied then reserve_items now lines db else db);
                     order' = order\<lparr>status := COMPLETED, last_change_at := now,
                                     last_change_type := CHANGE_COMPLETED\<rparr>
                 in (case save pk order' [''status'', ''last_change_at'', ''last_change_type''] db1 of
                       Inl e \<Rightarrow> (Inl e, db)
                     | Inr db2 \<Rightarrow> (Inr (OrderData order'), db2)))"

subsection \<open>add_item\<close>

text \<open>
  The view. The update of \<open>total\<close> is the one statement that can leave a column's range:
  a backend that enforces the range raises there, inside \<open>transaction.atomic()\<close>, and every
  write of the call is rolled back; a backend that does not stores the total, the
  transaction commits, and \<open>order.refresh_from_db()\<close> raises after it.
\<close>

definition add_item :: "timestamp \<Rightarrow> nat \<Rightarrow> nat \<Rightarrow> nat \<Rightarrow> db \<Rightarrow> outcome" where
  "add_item now pk pid qty db =
     (case get_object db pk of
        Inl e \<Rightarrow> (Inl e, db)
      | Inr order \<Rightarrow>
          if status order \<in> {COMPLETED, CANCELED} then (Inl OrderClosed, db)
          else if \<not> is_valid db pid qty then (Inl ValidationError, db)
          else
            (case products db pid of
              None \<Rightarrow> (Inl DoesNotExist, db)
            | Some p \<Rightarrow>
                if stock p < int qty
                then (Inl (InsufficientStockFor (product_name p) (stock p)), db)
                else
                  let (unit_price, db1) =
                        (case first_item db pk pid of
                           Some item \<Rightarrow> (price item, increase_quantity (item_pk item) qty db)
                         | None \<Rightarrow> (product_price p, create_item pk pid qty (product_price p) db));
                      db2 = update_stock pid (- int qty) db1;
                      db3 = create_movement pid qty ''salida'' ''venta'' now db2;
                      addition = int qty * unit_price;
                      db4 = update_total pk addition db3;
                      order' = order\<lparr>last_change_at := now, last_change_type := CHANGE_UPDATE\<rparr>
                  in if enforces_max_digits db \<and> \<not> total_in_range db4 pk
                     then (Inl DataError, db)
                     else
                       (case save pk order' [''last_change_at'', ''last_change_type''] db4 of
                          Inl e \<Rightarrow> (Inl e, db)
                        | Inr db5 \<Rightarrow>
                            (case refresh_from_db db5 pk of
                               Inl e \<Rightarrow> (Inl e, db5)
                             | Inr refreshed \<Rightarrow> (Inr (OrderData refreshed), db5)))))"

subsection \<open>remove_item\<close>

definition remove_item :: "timestamp \<Rightarrow> nat \<Rightarrow> nat \<Rightarrow> nat \<Rightarrow> db \<Rightarrow> outcome" where
  "remove_item now pk pid dec_qty db =
     (case get_object db pk of
        Inl e \<Rightarrow> (Inl e, db)
      | Inr order \<Rightarrow>
          if status order \<in> {COMPLETED, CANCELED} then (Inl OrderClosed, db)
          else if \<not> is_valid db pid dec_qty then (Inl ValidationError, db)
          else
            (case products db pid of
              None \<Rightarrow> (Inl DoesNotExist, db)
            | Some p \<Rightarrow>
                (case first_item db pk pid of
                   None \<Rightarrow> (Inl (ItemNotFound (product_name p)), db)
                 | Some item \<Rightarrow>
                     let remove_units = min dec_qty (quantity item);
                         unit_price = price item;
                         db1 = update_stock pid (int remove_units) db;
                         db2 = create_movement pid remove_units ''entrada'' ''ajuste'' now db1;
                         (line_total, db3) =
                           (if remove_units = quantity item
                            then (int (quantity item) * unit_price, delete_item (item_pk item) db2)
                            else (int remove_units * unit_price,
                                  decrease_quantity (item_pk item) remove_units db2));
                         db4 = update_total pk (- line_total) db3;
                         order' = order\<lparr>last_change_at := now, last_change_type := CHANGE_UPDATE\<rparr>
                     in (case save pk order' [''last_change_at'', ''last_change_type''] db4 of
                           Inl e \<Rightarrow> (Inl e, db)
                         | Inr db5 \<Rightarrow>
                             (case get_object db5 pk of
                                Inl e \<Rightarrow> (Inl e, db5)
                              | Inr refreshed \<Rightarrow> (Inr (OrderData refreshed), db5))))))"

subsection \<open>cancel\<close>

definition cancel :: "timestamp \<Rightarrow> nat \<Rightarrow> db \<Rightarrow> outcome" where
  "cancel now pk db =
     (case get_object db pk of
        Inl e \<Rightarrow> (Inl e, db)
      | Inr order \<Rightarrow>
          if status order = COMPLETED then (Inl InvalidTransition, db)
          else if status order = CANCELED then (Inl AlreadyCanceled, db)
          else
            let order' = order\<lparr>status := CANCELED, last_change_at := now,
                                last_change_type := CHANGE_CANCELED\<rparr>
            in (case save pk order' [''status'', ''last_change_at'', ''last_change_type''] db of
                  Inl e \<Rightarrow> (Inl e, db)
                | Inr db1 \<Rightarrow> (Inr (OrderData order'), db1)))"

subsection \<open>destroy\<close>

text \<open>
  The assignments of \<open>destroy\<close> to the instance. \<open>order.deleted_at = timezone.now()\<close> sets a
  plain attribute of the Python object: \<open>Order\<close> has no column \<open>deleted_at\<close>, so the
  attribute is no part of the row.
\<close>

definition destroy_instance :: "timestamp \<Rightarrow> order \<Rightarrow> order" where
  "destroy_instance now order =
     (let order1 = (if status order \<notin> {CANCELED, COMPLETED} then order\<lparr>status := CANCELED\<rparr>
                    else order)
      in order1\<lparr>last_change_at := now, last_change_type := CHANGE_DELETE\<rparr>)"

definition destroy :: "timestamp \<Rightarrow> nat \<Rightarrow> db \<Rightarrow> outcome" where
  "destroy now pk db =
     (case get_object db pk of
        Inl e \<Rightarrow> (Inl e, db)
      | Inr order \<Rightarrow>
          (case save pk (destroy_instance now order)
                  [''deleted_at'', ''status'', ''last_change_at'', ''last_change_type''] db of
             Inl e \<Rightarrow> (Inl e, db)
           | Inr db1 \<Rightarrow> (Inr NoContent, db1)))"

subsection \<open>The five operations on an order\<close>

datatype operation = AddItem nat nat | RemoveItem nat nat | Complete | Cancel | Delete

fun exec :: "operation \<Rightarrow> timestamp \<Rightarrow> nat \<Rightarrow> db \<Rightarrow> outcome" where
  "exec (AddItem pid qty) now pk db = add_item now pk pid qty db"
| "exec (RemoveItem pid qty) now pk db = remove_item now pk pid qty db"
| "exec Complete now pk db = complete now pk db"
| "exec Cancel now pk db = cancel now pk db"
| "exec Delete now pk db = destroy now pk db"

section \<open>The total of an order and its items\<close>

text \<open>The sum of \<open>quantity * price\<close> over the current items of an order, the statement that
  the column \<open>total\<close> equals it, and the primary key constraint of \<open>OrderItem\<close>: no two rows
  share a key, and the \<open>AutoField\<close> hands out a key above those in use.\<close>

definition items_total :: "db \<Rightarrow> nat \<Rightarrow> money" where
  "items_total db pk = sum_list (map item_total (items_of db pk))"

definition total_consistent :: "db \<Rightarrow> nat \<Rightarrow> bool" where
  "total_consistent db pk =
     (case orders db pk of None \<Rightarrow> True | Some order \<Rightarrow> total order = items_total db pk)"

text \<open>The unit price \<open>add_item\<close> charges: the snapshot price of the item the order already
  has for the product, the product's current price when it has none.\<close>

definition unit_price_of :: "db \<Rightarrow> nat \<Rightarrow> nat \<Rightarrow> product \<Rightarrow> money" where
  "unit_price_of db pk pid p =
     (case first_item db pk pid of Some item \<Rightarrow> price item | None \<Rightarrow> product_price p)"

definition pk_integrity :: "db \<Rightarrow> bool" where
  "pk_integrity db =
     (distinct (map item_pk (order_items db)) \<and>
      list_all (\<lambda>item. item_pk item < next_item_pk db) (order_items db))"


section \<open>A shop to run the views on\<close>

text \<open>
  Order 41 is pending and holds five pens (three in stock) and two bottles of ink bought at
  2.50 (the ink costs 3.00 now); order 42 is completed, order 43 canceled; no order holds
  caps. In \<open>shop_sold\<close> pens and ink have a sale movement after order 41 was created.
\<close>

definition pen :: product where
  "pen = \<lparr>product_name = ''pen'', product_price = 1000, stock = 3\<rparr>"

definition ink :: product where
  "ink = \<lparr>product_name = ''ink'', product_price = 300, stock = 10\<rparr>"

definition cap :: product where
  "cap = \<lparr>product_name = ''cap'', product_price = 150, stock = 7\<rparr>"

definition order1 :: order where
  "order1 = \<lparr>customer_name = ''ana'', total = 5500, status = PENDING, created_at = 100,
             last_change_at = 120, last_change_type = CHANGE_UPDATE\<rparr>"

definition order2 :: order where
  "order2 = \<lparr>customer_name = ''luis'', total = 0, status = COMPLETED, created_at = 90,
             last_change_at = 95, last_change_type = CHANGE_COMPLETED\<rparr>"

definition order3 :: order where
  "order3 = \<lparr>customer_name = ''eva'', total = 0, status = CANCELED, created_at = 80,
             last_change_at = 85, last_change_type = CHANGE_CANCELED\<rparr>"

definition pens_line :: order_item where
  "pens_line = \<lparr>item_pk = 21, order_id = 41, product_id = 11, quantity = 5, price = 1000\<rparr>"

definition ink_line :: order_item where
  "ink_line = \<lparr>item_pk = 22, order_id = 41, product_id = 12, quantity = 2, price = 250\<rparr>"

definition shop :: db where
  "shop = \<lparr>products = [11 \<mapsto> pen, 12 \<mapsto> ink, 13 \<mapsto> cap],
           orders = [41 \<mapsto> order1, 42 \<mapsto> order2, 43 \<mapsto> order3],
           order_items = [pens_line, ink_line],
           next_item_pk = 23,
           movements = [],
           enforces_max_digits = True\<rparr>"

definition sale :: "nat \<Rightarrow> nat \<Rightarrow> timestamp \<Rightarrow> inventory_movement" where
  "sale pid qty t = \<lparr>mv_product = pid, mv_quantity = qty, movement_type = ''salida'',
                     reason = ''venta'', timestamp = t\<rparr>"

definition shop_sold :: db where
  "shop_sold = shop\<lparr>movements := [sale 11 5 110, sale 12 2 120]\<rparr>"

text \<open>
  A shop that also sells gold at 50000000.00 apiece: two pieces on order 41 take its total
  beyond the ten digits of the column. \<open>shop_gold\<close> runs on a backend that enforces the
  column, \<open>shop_gold_stored\<close> on one that does not.
\<close>

definition gold :: product where
  "gold = \<lparr>product_name = ''gold'', product_price = 5000000000, stock = 7\<rparr>"

definition shop_gold :: db where
  "shop_gold = shop\<lparr>products := (products shop)(14 \<mapsto> gold)\<rparr>"

definition shop_gold_stored :: db where
  "shop_gold_stored = shop_gold\<lparr>enforces_max_digits := False\<rparr>"


section \<open>What the ORM calls and the loops compute\<close>

lemma save_status:
  "orders db pk = Some row \<Longrightarrow>
   save pk inst [''status'', ''last_change_at'', ''last_change_type''] db =
     Inr (db\<lparr>orders := (orders db)(pk \<mapsto> row\<lparr>last_change_type := last_change_type inst,
            last_change_at := last_change_at inst, status := status inst\<rparr>)\<rparr>)"
  by (simp add: save_def order_columns_def copy_field_def)

lemma save_change:
  "orders db pk = Some row \<Longrightarrow>
   save pk inst [''last_change_at'', ''last_change_type''] db =
     Inr (db\<lparr>orders := (orders db)(pk \<mapsto> row\<lparr>last_change_type := last_change_type inst,
            last_change_at := last_change_at inst\<rparr>)\<rparr>)"
  by (simp add: save_def order_columns_def copy_field_def)

lemma first_item_Some:
  "first_item db pk pid = Some item \<Longrightarrow>
   item \<in> set (order_items db) \<and> order_id item = pk \<and> product_id item = pid"
  by (auto simp: first_item_def find_Some_iff)


lemma add_item_existing_db:
  fixes now :: timestamp
  assumes "orders db pk = Some order" "status order = PENDING" "products db pid = Some p"
    "0 < qty" "int qty \<le> stock p" "first_item db pk pid = Some item"
    "enforces_max_digits db \<longrightarrow> fits_total (total order + int qty * price item)"
  defines "row \<equiv> order\<lparr>total := total order + int qty * price item,
                     last_change_type := CHANGE_UPDATE, last_change_at := now\<rparr>"
  shows "orders (snd (add_item now pk pid qty db)) = (orders db)(pk \<mapsto> row)"
    and "products (snd (add_item now pk pid qty db)) =
           (products db)(pid \<mapsto> p\<lparr>stock := stock p - int qty\<rparr>)"
    and "order_items (snd (add_item now pk pid qty db)) =
           map (\<lambda>i. if item_pk i = item_pk item then i\<lparr>quantity := quantity i + qty\<rparr> else i)
             (order_items db)"
    and "next_item_pk (snd (add_item now pk pid qty db)) = next_item_pk db"
    and "movements (snd (add_item now pk pid qty db)) = movements db @
           [\<lparr>mv_product = pid, mv_quantity = qty, movement_type = ''salida'',
             reason = ''venta'', timestamp = now\<rparr>]"
    and "fst (add_item now pk pid qty db) =
           (if fits_total (total order + int qty * price item) then Inr (OrderData row)
            else Inl InvalidOperation)"
  using assms(1-7) unfolding row_def
  by (auto simp add: add_item_def get_object_def is_valid_def increase_quantity_def
      update_stock_def create_movement_def update_total_def save_change Let_def
      total_in_range_def refresh_from_db_def)

lemma add_item_new_db:
  fixes now :: timestamp
  assumes "orders db pk = Some order" "status order = PENDING" "products db pid = Some p"
    "0 < qty" "int qty \<le> stock p" "first_item db pk pid = None"
    "enforces_max_digits db \<longrightarrow> fits_total (total order + int qty * product_price p)"
  defines "row \<equiv> order\<lparr>total := total order + int qty * product_price p,
                     last_change_type := CHANGE_UPDATE, last_change_at := now\<rparr>"
  shows "orders (snd (add_item now pk pid qty db)) = (orders db)(pk \<mapsto> row)"
    and "products (snd (add_item now pk pid qty db)) =
           (products db)(pid \<mapsto> p\<lparr>stock := stock p - int qty\<rparr>)"
    and "order_items (snd (add_item now pk pid qty db)) = order_items db @
           [\<lparr>item_pk = next_item_pk db, order_id = pk, product_id = pid, quantity = qty,
             price = product_price p\<rparr>]"
    and "next_item_pk (snd (add_item now pk pid qty db)) = Suc (next_item_pk db)"
    and "movements (snd (add_item now pk pid qty db)) = movements db @
           [\<lparr>mv_product = pid, mv_quantity = qty, movement_type = ''salida'',
             reason = ''venta'', timestamp = now\<rparr>]"
    and "fst (add_item now pk pid qty db) =
           (if fits_total (total order + int qty * product_price p) then Inr (OrderData row)
            else Inl InvalidOperation)"
  using assms(1-7) unfolding row_def
  by (auto simp add: add_item_def get_object_def is_valid_def create_item_def
      update_stock_def create_movement_def update_total_def save_change Let_def
      total_in_range_def refresh_from_db_def)



text \<open>Beyond the column: the call ends in an exception, with every write rolled back on a
  backend that enforces the range.\<close>

lemma add_item_beyond_max_digits:
  fixes now :: timestamp
  assumes "orders db pk = Some order" "status order = PENDING" "products db pid = Some p"
    "0 < qty" "int qty \<le> stock p"
    "\<not> fits_total (total order + int qty * unit_price_of db pk pid p)"
  shows "add_item now pk pid qty db =
    (if enforces_max_digits db then (Inl DataError, db)
     else (Inl InvalidOperation, snd (add_item now pk pid qty db)))"
proof (cases "enforces_max_digits db")
  case True
  with assms show ?thesis
    by (cases "first_item db pk pid")
       (simp_all add: add_item_def get_object_def is_valid_def increase_quantity_def
          create_item_def update_stock_def create_movement_def update_total_def Let_def
          total_in_range_def unit_price_of_def)
next
  case False
  have "fst (add_item now pk pid qty db) = Inl InvalidOperation"
  proof (cases "first_item db pk pid")
    case None
    with assms(6) add_item_new_db(6) [OF assms(1-5) None, of now] False show ?thesis
      by (simp add: unit_price_of_def)
  next
    case (Some item)
    with assms(6) add_item_existing_db(6) [OF assms(1-5) Some, of now] False show ?thesis
      by (simp add: unit_price_of_def)
  qed
  with False show ?thesis by (simp add: prod_eq_iff)
qed

lemma add_item_beyond_max_digits_enforced:
  "add_item 200 41 14 2 shop_gold = (Inl DataError, shop_gold)"
  by (simp add: add_item_def get_object_def is_valid_def first_item_def create_item_def
      update_stock_def create_movement_def update_total_def total_in_range_def
      fits_total_def max_total_def Let_def shop_gold_def gold_def shop_def order1_def
      order2_def order3_def pen_def ink_def cap_def pens_line_def ink_line_def)

lemma add_item_beyond_max_digits_stored:
  "fst (add_item 200 41 14 2 shop_gold_stored) = Inl InvalidOperation \<and>
   map_option total (orders (snd (add_item 200 41 14 2 shop_gold_stored)) 41) =
     Some 10000005500 \<and>
   map_option stock (products (snd (add_item 200 41 14 2 shop_gold_stored)) 14) = Some 5"
  by (simp add: add_item_def get_object_def is_valid_def first_item_def create_item_def
      update_stock_def create_movement_def update_total_def total_in_range_def
      refresh_from_db_def save_def order_columns_def copy_field_def
      fits_total_def max_total_def Let_def shop_gold_stored_def shop_gold_def gold_def
      shop_def order1_def order2_def order3_def pen_def ink_def cap_def pens_line_def
      ink_line_def)

lemma add_item_cases:
  assumes "add_item now pk pid qty db = (r, db')"
  shows "db' = db \<or> (\<exists>order p. orders db pk = Some order \<and> status order = PENDING \<and>
           products db pid = Some p \<and> 0 < qty \<and> int qty \<le> stock p \<and>
           (enforces_max_digits db \<longrightarrow>
              fits_total (total order + int qty * unit_price_of db pk pid p)))"
proof (cases "orders db pk")
  case None
  with assms show ?thesis by (simp add: add_item_def get_object_def)
next
  case (Some order)
  show ?thesis
  proof (cases "status order = PENDING \<and> is_valid db pid qty")
    case False
    with Some assms show ?thesis
      by (cases "status order") (auto simp: add_item_def get_object_def)
  next
    case True
    then obtain p where p: "products db pid = Some p" and q: "0 < qty"
      by (auto simp: is_valid_def)
    show ?thesis
    proof (cases "stock p < int qty")
      case True
      with Some \<open>status order = PENDING \<and> is_valid db pid qty\<close> p assms show ?thesis
        by (simp add: add_item_def get_object_def)
    next
      case False
      then have s: "int qty \<le> stock p" by simp
      show ?thesis
      proof (cases "enforces_max_digits db \<and>
          \<not> fits_total (total order + int qty * unit_price_of db pk pid p)")
        case True
        with add_item_beyond_max_digits [OF Some _ p q s, of now] \<open>status order = PENDING \<and> is_valid db pid qty\<close>
          assms show ?thesis by simp
      next
        case False
        with Some \<open>status order = PENDING \<and> is_valid db pid qty\<close> p q s show ?thesis by auto
      qed
    qed
  qed
qed

lemma remove_item_result:
  fixes now :: timestamp
  assumes "orders db pk = Some order" "status order = PENDING" "products db pid = Some p"
    "0 < dec_qty" "first_item db pk pid = Some item"
  defines "n \<equiv> min dec_qty (quantity item)"
  defines "row \<equiv> order\<lparr>total := total order - int n * price item,
                     last_change_type := CHANGE_UPDATE, last_change_at := now\<rparr>"
  shows "fst (remove_item now pk pid dec_qty db) = Inr (OrderData row)"
    and "orders (snd (remove_item now pk pid dec_qty db)) = (orders db)(pk \<mapsto> row)"
    and "products (snd (remove_item now pk pid dec_qty db)) =
           (products db)(pid \<mapsto> p\<lparr>stock := stock p + int n\<rparr>)"
    and "order_items (snd (remove_item now pk pid dec_qty db)) =
           (if n = quantity item
            then filter (\<lambda>i. item_pk i \<noteq> item_pk item) (order_items db)
            else map (\<lambda>i. if item_pk i = item_pk item then i\<lparr>quantity := quantity i - n\<rparr> else i)
                   (order_items db))"
    and "next_item_pk (snd (remove_item now pk pid dec_qty db)) = next_item_pk db"
    and "movements (snd (remove_item now pk pid dec_qty db)) = movements db @
           [\<lparr>mv_product = pid, mv_quantity = n, movement_type = ''entrada'',
             reason = ''ajuste'', timestamp = now\<rparr>]"
  using assms(1-5) unfolding row_def n_def
  by (simp_all add: remove_item_def get_object_def is_valid_def delete_item_def
      decrease_quantity_def update_stock_def create_movement_def update_total_def save_change
      Let_def)

lemma remove_item_cases:
  assumes "remove_item now pk pid qty db = (r, db')"
  shows "db' = db \<or> (\<exists>order p item. orders db pk = Some order \<and> status order = PENDING \<and>
           products db pid = Some p \<and> 0 < qty \<and> first_item db pk pid = Some item)"
proof (cases "orders db pk")
  case None
  with assms show ?thesis by (simp add: remove_item_def get_object_def)
next
  case (Some order)
  show ?thesis
  proof (cases "status order = PENDING \<and> is_valid db pid qty")
    case False
    with Some assms show ?thesis
      by (cases "status order") (auto simp: remove_item_def get_object_def)
  next
    case True
    then obtain p where p: "products db pid = Some p" and q: "0 < qty"
      by (auto simp: is_valid_def)
    show ?thesis
    proof (cases "first_item db pk pid")
      case None
      with Some True p assms show ?thesis
        by (simp add: remove_item_def get_object_def)
    next
      case (Some item)
      with \<open>orders db pk = Some order\<close> True p q show ?thesis by auto
    qed
  qed
qed

lemma distinct_pk_head:
  "distinct (map item_pk (x # xs)) \<Longrightarrow> \<forall>i\<in>set xs. item_pk i \<noteq> item_pk x"
  by (auto simp: image_iff)

lemma map_other_pk:
  "\<forall>i\<in>set xs. item_pk i \<noteq> k \<Longrightarrow> map (\<lambda>i. if item_pk i = k then f i else i) xs = xs"
  by (induction xs) auto

lemma filter_other_pk:
  "\<forall>i\<in>set xs. item_pk i \<noteq> k \<Longrightarrow> filter (\<lambda>i. item_pk i \<noteq> k) xs = xs"
  by (induction xs) auto

lemma sum_after_increase:
  assumes "distinct (map item_pk xs)" "item \<in> set xs"
  shows "sum_list (map item_total (filter (\<lambda>i. order_id i = oid)
            (map (\<lambda>i. if item_pk i = item_pk item then i\<lparr>quantity := quantity i + n\<rparr> else i) xs)))
         = sum_list (map item_total (filter (\<lambda>i. order_id i = oid) xs))
           + (if order_id item = oid then int n * price item else 0)"
  using assms
proof (induction xs)
  case Nil
  then show ?case by simp
next
  case (Cons x xs)
  show ?case
  proof (cases "x = item")
    case True
    with Cons.prems have "\<forall>i\<in>set xs. item_pk i \<noteq> item_pk item" by (intro distinct_pk_head) simp
    then have "map (\<lambda>i. if item_pk i = item_pk item then i\<lparr>quantity := quantity i + n\<rparr> else i) xs = xs"
      by (rule map_other_pk)
    with True show ?thesis by (simp add: item_total_def algebra_simps)
  next
    case False
    with Cons.prems have "item \<in> set xs" "distinct (map item_pk xs)" "item_pk x \<noteq> item_pk item"
      by (auto dest: distinct_pk_head)
    with Cons.IH show ?thesis by simp
  qed
qed

lemma sum_after_decrease:
  assumes "distinct (map item_pk xs)" "item \<in> set xs" "n \<le> quantity item"
  shows "sum_list (map item_total (filter (\<lambda>i. order_id i = oid)
            (map (\<lambda>i. if item_pk i = item_pk item then i\<lparr>quantity := quantity i - n\<rparr> else i) xs)))
         = sum_list (map item_total (filter (\<lambda>i. order_id i = oid) xs))
           - (if order_id item = oid then int n * price item else 0)"
  using assms
proof (induction xs)
  case Nil
  then show ?case by simp
next
  case (Cons x xs)
  show ?case
  proof (cases "x = item")
    case True
    with Cons.prems have "\<forall>i\<in>set xs. item_pk i \<noteq> item_pk item" by (intro distinct_pk_head) simp
    then have "map (\<lambda>i. if item_pk i = item_pk item then i\<lparr>quantity := quantity i - n\<rparr> else i) xs = xs"
      by (rule map_other_pk)
    with True Cons.prems(3) show ?thesis
      by (simp add: item_total_def algebra_simps)
  next
    case False
    with Cons.prems have "item \<in> set xs" "distinct (map item_pk xs)" "item_pk x \<noteq> item_pk item"
      by (auto dest: distinct_pk_head)
    with Cons.IH Cons.prems(3) show ?thesis by simp
  qed
qed

lemma sum_after_delete:
  assumes "distinct (map item_pk xs)" "item \<in> set xs"
  shows "sum_list (map item_total (filter (\<lambda>i. order_id i = oid)
            (filter (\<lambda>i. item_pk i \<noteq> item_pk item) xs)))
         = sum_list (map item_total (filter (\<lambda>i. order_id i = oid) xs))
           - (if order_id item = oid then int (quantity item) * price item else 0)"
  using assms
proof (induction xs)
  case Nil
  then show ?case by simp
next
  case (Cons x xs)
  show ?case
  proof (cases "x = item")
    case True
    with Cons.prems have "\<forall>i\<in>set xs. item_pk i \<noteq> item_pk item" by (intro distinct_pk_head) simp
    then have "filter (\<lambda>i. item_pk i \<noteq> item_pk item) xs = xs"
      by (rule filter_other_pk)
    with True show ?thesis by (simp add: item_total_def)
  next
    case False
    with Cons.prems have "item \<in> set xs" "distinct (map item_pk xs)" "item_pk x \<noteq> item_pk item"
      by (auto dest: distinct_pk_head)
    with Cons.IH show ?thesis by simp
  qed
qed

lemma map_pk_update:
  "map item_pk (map (\<lambda>i. if item_pk i = k then i\<lparr>quantity := f i\<rparr> else i) xs) = map item_pk xs"
  by (induction xs) auto






lemma reserve_items_frame:
  "orders (reserve_items now lines db) = orders db \<and>
   order_items (reserve_items now lines db) = order_items db \<and>
   next_item_pk (reserve_items now lines db) = next_item_pk db"
  by (induction lines arbitrary: db)
     (auto simp: update_stock_def create_movement_def split: option.splits)





lemma complete_cases:
  fixes now :: timestamp
  assumes "complete now pk db = (r, db')"
  shows "db' = db \<or>
    (\<exists>order. orders db pk = Some order \<and> status order = PENDING \<and>
       order_items db' = order_items db \<and> next_item_pk db' = next_item_pk db \<and>
       orders db' = (orders db)(pk \<mapsto> order\<lparr>last_change_type := CHANGE_COMPLETED,
          last_change_at := now, status := COMPLETED\<rparr>))"
proof (cases "orders db pk")
  case None
  with assms show ?thesis by (simp add: complete_def get_object_def)
next
  case (Some order)
  show ?thesis
  proof (cases "status order")
    case PENDING
    let ?lines = "items_select_related db pk"
    show ?thesis
    proof (cases "\<not> already_applied db order ?lines \<and> insufficient ?lines \<noteq> []")
      case True
      with Some PENDING assms show ?thesis
        by (auto simp: complete_def get_object_def Let_def)
    next
      case False
      let ?db1 = "if \<not> already_applied db order ?lines then reserve_items now ?lines db else db"
      have "orders ?db1 pk = Some order" "order_items ?db1 = order_items db"
        "next_item_pk ?db1 = next_item_pk db" "orders ?db1 = orders db"
        using Some by (simp_all add: reserve_items_frame)
      with Some PENDING False assms show ?thesis
        by (auto simp: complete_def get_object_def Let_def save_status)
    qed
  next
    case COMPLETED
    with Some assms show ?thesis by (simp add: complete_def get_object_def)
  next
    case CANCELED
    with Some assms show ?thesis by (simp add: complete_def get_object_def)
  qed
qed

lemma cancel_cases:
  fixes now :: timestamp
  assumes "cancel now pk db = (r, db')"
  shows "(\<exists>e. r = Inl e \<and> db' = db) \<or>
    (\<exists>order. orders db pk = Some order \<and> status order = PENDING \<and>
       r = Inr (OrderData (order\<lparr>status := CANCELED, last_change_at := now,
                 last_change_type := CHANGE_CANCELED\<rparr>)) \<and>
       db' = db\<lparr>orders := (orders db)(pk \<mapsto> order\<lparr>last_change_type := CHANGE_CANCELED,
          last_change_at := now, status := CANCELED\<rparr>)\<rparr>)"
proof (cases "orders db pk")
  case None
  with assms show ?thesis by (auto simp: cancel_def get_object_def)
next
  case (Some order)
  with assms show ?thesis
    by (cases "status order") (auto simp: cancel_def get_object_def Let_def save_status)
qed

lemma save_deleted_at:
  "save pk inst [''deleted_at'', ''status'', ''last_change_at'', ''last_change_type''] db =
     Inl (ValueError [''deleted_at''])"
  by (simp add: save_def order_columns_def)

lemma destroy_cases: "destroy now pk db = (r, db') \<Longrightarrow> db' = db"
  by (auto simp: destroy_def get_object_def save_deleted_at split: option.splits)

lemma new_order_total_consistent:
  "orders db pk = Some order \<Longrightarrow> total order = 0 \<Longrightarrow> items_of db pk = [] \<Longrightarrow>
   total_consistent db pk"
  by (simp add: total_consistent_def items_total_def)

lemma total_consistent_orders_update:
  assumes "total_consistent db oid" "orders db pk = Some order" "total row = total order"
    "order_items db' = order_items db" "orders db' = (orders db)(pk \<mapsto> row)"
  shows "total_consistent db' oid"
  using assms
  by (auto simp: total_consistent_def items_total_def items_of_def split: option.splits)

lemma add_item_invariant:
  fixes now :: timestamp
  assumes wf: "pk_integrity db" and inv: "total_consistent db oid"
    and run: "add_item now pk pid qty db = (r, db')"
  shows "total_consistent db' oid \<and> pk_integrity db'"
proof -
  from add_item_cases [OF run] show ?thesis
  proof
    assume "db' = db"
    with wf inv show ?thesis by simp
  next
    assume "\<exists>order p. orders db pk = Some order \<and> status order = PENDING \<and>
      products db pid = Some p \<and> 0 < qty \<and> int qty \<le> stock p \<and>
      (enforces_max_digits db \<longrightarrow>
         fits_total (total order + int qty * unit_price_of db pk pid p))"
    then obtain order p where ok: "orders db pk = Some order" "status order = PENDING"
      "products db pid = Some p" "0 < qty" "int qty \<le> stock p"
      and keeps: "enforces_max_digits db \<longrightarrow>
         fits_total (total order + int qty * unit_price_of db pk pid p)" by blast
    from run have db': "db' = snd (add_item now pk pid qty db)" by simp
    from wf have dist: "distinct (map item_pk (order_items db))"
      and below: "list_all (\<lambda>item. item_pk item < next_item_pk db) (order_items db)"
      by (simp_all add: pk_integrity_def)
    show ?thesis
    proof (cases "first_item db pk pid")
      case None
      with keeps have "enforces_max_digits db \<longrightarrow>
          fits_total (total order + int qty * product_price p)"
        by (simp add: unit_price_of_def)
      note eff = add_item_new_db [OF ok None this, of now]
      have items: "items_total db' oid =
          items_total db oid + (if oid = pk then int qty * product_price p else 0)"
        by (simp add: db' eff(3) items_total_def items_of_def item_total_def)
      have "total_consistent db' oid"
        using inv ok(1) items
        by (auto simp: total_consistent_def db' eff(1) split: option.splits)
      moreover have "pk_integrity db'"
        using dist below
        by (auto simp: pk_integrity_def db' eff(3,4) list_all_iff less_Suc_eq)
      ultimately show ?thesis ..
    next
      case (Some item)
      with keeps have "enforces_max_digits db \<longrightarrow>
          fits_total (total order + int qty * price item)"
        by (simp add: unit_price_of_def)
      note eff = add_item_existing_db [OF ok Some this, of now]
      from first_item_Some [OF Some] have mem: "item \<in> set (order_items db)"
        and own: "order_id item = pk" by simp_all
      have items: "items_total db' oid =
          items_total db oid + (if oid = pk then int qty * price item else 0)"
        using sum_after_increase [OF dist mem, of oid qty] own
        by (auto simp: db' eff(3) items_total_def items_of_def)
      have "total_consistent db' oid"
        using inv ok(1) items
        by (auto simp: total_consistent_def db' eff(1) split: option.splits)
      moreover have "pk_integrity db'"
        using dist below
        by (auto simp: pk_integrity_def db' eff(3,4) map_pk_update list_all_iff
            simp del: map_map)
      ultimately show ?thesis ..
    qed
  qed
qed

lemma remove_item_invariant:
  fixes now :: timestamp
  assumes wf: "pk_integrity db" and inv: "total_consistent db oid"
    and run: "remove_item now pk pid qty db = (r, db')"
  shows "total_consistent db' oid \<and> pk_integrity db'"
proof -
  from remove_item_cases [OF run] show ?thesis
  proof
    assume "db' = db"
    with wf inv show ?thesis by simp
  next
    assume "\<exists>order p item. orders db pk = Some order \<and> status order = PENDING \<and>
      products db pid = Some p \<and> 0 < qty \<and> first_item db pk pid = Some item"
    then obtain order p item where ok: "orders db pk = Some order" "status order = PENDING"
      "products db pid = Some p" "0 < qty" "first_item db pk pid = Some item" by blast
    from run have db': "db' = snd (remove_item now pk pid qty db)" by simp
    from wf have dist: "distinct (map item_pk (order_items db))"
      and below: "list_all (\<lambda>item. item_pk item < next_item_pk db) (order_items db)"
      by (simp_all add: pk_integrity_def)
    note eff = remove_item_result [OF ok, of now]
    from first_item_Some [OF ok(5)] have mem: "item \<in> set (order_items db)"
      and own: "order_id item = pk" by simp_all
    let ?n = "min qty (quantity item)"
    have items: "items_total db' oid =
        items_total db oid - (if oid = pk then int ?n * price item else 0)"
    proof (cases "?n = quantity item")
      case True
      then show ?thesis
        using sum_after_delete [OF dist mem, of oid] own
        by (auto simp: db' eff(4) items_total_def items_of_def)
    next
      case False
      have "?n \<le> quantity item" by simp
      from sum_after_decrease [OF dist mem this, of oid] False own show ?thesis
        by (auto simp: db' eff(4) items_total_def items_of_def)
    qed
    have "total_consistent db' oid"
      using inv ok(1) items by (auto simp: total_consistent_def db' eff(2) split: option.splits)
    moreover have "pk_integrity db'"
      using dist below
      by (auto simp: pk_integrity_def db' eff(4,5) map_pk_update list_all_iff distinct_map_filter
          simp del: map_map)
    ultimately show ?thesis ..
  qed
qed

lemma orders_after_exec:
  fixes now :: timestamp
  assumes "exec op now pk db = (r, db')"
  shows "orders db' = orders db \<or>
    (\<exists>order0 row. orders db pk = Some order0 \<and> status order0 = PENDING \<and>
       orders db' = (orders db)(pk \<mapsto> row))"
proof (cases op)
  case (AddItem pid qty)
  with assms have run: "add_item now pk pid qty db = (r, db')" by simp
  then have db': "db' = snd (add_item now pk pid qty db)" by simp
  from add_item_cases [OF run] show ?thesis
  proof
    assume "db' = db" then show ?thesis by simp
  next
    assume "\<exists>order p. orders db pk = Some order \<and> status order = PENDING \<and>
      products db pid = Some p \<and> 0 < qty \<and> int qty \<le> stock p \<and>
      (enforces_max_digits db \<longrightarrow>
         fits_total (total order + int qty * unit_price_of db pk pid p))"
    then obtain order p where ok: "orders db pk = Some order" "status order = PENDING"
      "products db pid = Some p" "0 < qty" "int qty \<le> stock p"
      and keeps: "enforces_max_digits db \<longrightarrow>
         fits_total (total order + int qty * unit_price_of db pk pid p)" by blast
    show ?thesis
    proof (cases "first_item db pk pid")
      case None
      with keeps have "enforces_max_digits db \<longrightarrow>
          fits_total (total order + int qty * product_price p)"
        by (simp add: unit_price_of_def)
      from add_item_new_db(1) [OF ok None this, of now] ok(1,2) show ?thesis
        unfolding db' by blast
    next
      case (Some item)
      with keeps have "enforces_max_digits db \<longrightarrow>
          fits_total (total order + int qty * price item)"
        by (simp add: unit_price_of_def)
      from add_item_existing_db(1) [OF ok Some this, of now] ok(1,2) show ?thesis
        unfolding db' by blast
    qed
  qed
next
  case (RemoveItem pid qty)
  with assms have run: "remove_item now pk pid qty db = (r, db')" by simp
  then have db': "db' = snd (remove_item now pk pid qty db)" by simp
  from remove_item_cases [OF run] show ?thesis
  proof
    assume "db' = db" then show ?thesis by simp
  next
    assume "\<exists>order p item. orders db pk = Some order \<and> status order = PENDING \<and>
      products db pid = Some p \<and> 0 < qty \<and> first_item db pk pid = Some item"
    then obtain order p item where ok: "orders db pk = Some order" "status order = PENDING"
      "products db pid = Some p" "0 < qty" "first_item db pk pid = Some item" by blast
    from remove_item_result(2) [OF ok, of now] ok(1,2) show ?thesis
      unfolding db' by blast
  qed
next
  case Complete
  with assms have "complete now pk db = (r, db')" by simp
  from complete_cases [OF this] show ?thesis by blast
next
  case Cancel
  with assms have "cancel now pk db = (r, db')" by simp
  from cancel_cases [OF this] show ?thesis by auto
next
  case Delete
  with assms have "destroy now pk db = (r, db')" by simp
  then have "db' = db" by (rule destroy_cases)
  then show ?thesis by simp
qed


lemmas shop_defs = shop_def shop_sold_def sale_def pen_def ink_def cap_def order1_def order2_def
  order3_def pens_line_def ink_line_def







lemmas view_defs = add_item_def remove_item_def complete_def cancel_def destroy_def
  get_object_def is_valid_def first_item_def increase_quantity_def decrease_quantity_def
  create_item_def delete_item_def update_stock_def create_movement_def update_total_def
  save_def order_columns_def copy_field_def Let_def total_in_range_def refresh_from_db_def
  fits_total_def max_total_def

lemma shop_order1: "orders shop 41 = Some order1" "status order1 = PENDING"
  by (simp_all add: shop_defs)

lemma shop_integrity: "pk_integrity shop"
  by (simp add: pk_integrity_def shop_defs)

lemma shop_total: "total_consistent shop 41"
  by (simp add: total_consistent_def items_total_def items_of_def item_total_def shop_defs)


section \<open>The claims\<close>

text \<open>
  C1. Every operation on an order (\<open>add_item\<close>, \<open>remove_item\<close>, \<open>complete\<close>, \<open>cancel\<close>,
  \<open>destroy\<close>), whatever it answers, keeps the invariant: if the primary keys of the items
  are unique and the total of an order equals the sum of quantity times snapshot price
  over its items before the call, both hold after the call, for the order operated on and
  for every other order.
\<close>

theorem total_invariant_preserved:
  fixes now :: timestamp
  assumes "pk_integrity db" "total_consistent db oid" "exec op now pk db = (r, db')"
  shows "total_consistent db' oid \<and> pk_integrity db'"
proof (cases op)
  case (AddItem pid qty)
  with assms(3) have "add_item now pk pid qty db = (r, db')" by simp
  from add_item_invariant [OF assms(1,2) this] show ?thesis .
next
  case (RemoveItem pid qty)
  with assms(3) have "remove_item now pk pid qty db = (r, db')" by simp
  from remove_item_invariant [OF assms(1,2) this] show ?thesis .
next
  case Complete
  with assms(3) have "complete now pk db = (r, db')" by simp
  from complete_cases [OF this] show ?thesis
  proof
    assume "db' = db" with assms show ?thesis by simp
  next
    assume "\<exists>order. orders db pk = Some order \<and> status order = PENDING \<and>
       order_items db' = order_items db \<and> next_item_pk db' = next_item_pk db \<and>
       orders db' = (orders db)(pk \<mapsto> order\<lparr>last_change_type := CHANGE_COMPLETED,
          last_change_at := now, status := COMPLETED\<rparr>)"
    then obtain order where o: "orders db pk = Some order"
      "order_items db' = order_items db" "next_item_pk db' = next_item_pk db"
      "orders db' = (orders db)(pk \<mapsto> order\<lparr>last_change_type := CHANGE_COMPLETED,
          last_change_at := now, status := COMPLETED\<rparr>)" by blast
    have "total_consistent db' oid"
      by (rule total_consistent_orders_update [OF assms(2) o(1) _ o(2) o(4)]) simp
    moreover have "pk_integrity db'"
      using assms(1) by (simp add: pk_integrity_def o(2,3))
    ultimately show ?thesis ..
  qed
next
  case Cancel
  with assms(3) have "cancel now pk db = (r, db')" by simp
  from cancel_cases [OF this] show ?thesis
  proof
    assume "\<exists>e. r = Inl e \<and> db' = db" with assms show ?thesis by auto
  next
    assume "\<exists>order. orders db pk = Some order \<and> status order = PENDING \<and>
       r = Inr (OrderData (order\<lparr>status := CANCELED, last_change_at := now,
                 last_change_type := CHANGE_CANCELED\<rparr>)) \<and>
       db' = db\<lparr>orders := (orders db)(pk \<mapsto> order\<lparr>last_change_type := CHANGE_CANCELED,
          last_change_at := now, status := CANCELED\<rparr>)\<rparr>"
    then obtain order where o: "orders db pk = Some order"
       "db' = db\<lparr>orders := (orders db)(pk \<mapsto> order\<lparr>last_change_type := CHANGE_CANCELED,
          last_change_at := now, status := CANCELED\<rparr>)\<rparr>" by blast
    have "total_consistent db' oid"
      by (rule total_consistent_orders_update [OF assms(2) o(1)]) (simp_all add: o(2))
    moreover have "pk_integrity db'"
      using assms(1) by (simp add: pk_integrity_def o(2))
    ultimately show ?thesis ..
  qed
next
  case Delete
  with assms(3) have "destroy now pk db = (r, db')" by simp
  then have "db' = db" by (rule destroy_cases)
  with assms show ?thesis by simp
qed

theorem total_invariant_preserved_witness:
  "pk_integrity shop \<and> total_consistent shop 41 \<and>
   map_option total (orders (snd (exec (AddItem 12 4) 200 41 shop)) 41) = Some 6500 \<and>
   items_total (snd (exec (AddItem 12 4) 200 41 shop)) 41 = 6500 \<and>
   total_consistent (snd (exec (AddItem 12 4) 200 41 shop)) 41"
proof -
  have run: "exec (AddItem 12 4) 200 41 shop =
      (fst (exec (AddItem 12 4) 200 41 shop), snd (exec (AddItem 12 4) 200 41 shop))"
    by simp
  have t: "map_option total (orders (snd (exec (AddItem 12 4) 200 41 shop)) 41) = Some 6500"
    by (simp add: view_defs shop_defs)
  have i: "items_total (snd (exec (AddItem 12 4) 200 41 shop)) 41 = 6500"
    by (simp add: view_defs shop_defs items_total_def items_of_def item_total_def)
  from total_invariant_preserved [OF shop_integrity shop_total run] shop_integrity shop_total t i
  show ?thesis by simp
qed




text \<open>
  C3. \<open>complete\<close> on a completed order answers \<open>AlreadyCompleted\<close> and on a canceled order
  \<open>InvalidTransition\<close>; in both cases the database, and with it every product's stock, is
  unchanged.
\<close>

theorem complete_closed_order:
  "orders db pk = Some order \<Longrightarrow>
   (status order = COMPLETED \<longrightarrow> complete now pk db = (Inl AlreadyCompleted, db)) \<and>
   (status order = CANCELED \<longrightarrow> complete now pk db = (Inl InvalidTransition, db))"
  by (simp add: complete_def get_object_def)

theorem complete_closed_order_witness:
  "orders shop 42 = Some order2 \<and> status order2 = COMPLETED \<and>
   complete 200 42 shop = (Inl AlreadyCompleted, shop) \<and>
   orders shop 43 = Some order3 \<and> status order3 = CANCELED \<and>
   complete 200 43 shop = (Inl InvalidTransition, shop)"
proof -
  have a: "orders shop 42 = Some order2" "status order2 = COMPLETED"
    and b: "orders shop 43 = Some order3" "status order3 = CANCELED"
    by (simp_all add: shop_defs)
  from complete_closed_order [OF a(1), of 200] complete_closed_order [OF b(1), of 200] a b
  show ?thesis by simp
qed







text \<open>
  C7. No operation moves a status out of \<open>COMPLETED\<close> or \<open>CANCELED\<close>: for every database,
  every order with such a status and every operation on any order, whatever it answers,
  the stored status of the order is the same after the call; and the status that
  \<open>destroy\<close> assigns to its instance of such an order is the same too.
\<close>

theorem closed_status_never_changes:
  fixes now :: timestamp
  assumes "orders db oid = Some order" "status order \<in> {COMPLETED, CANCELED}"
    "exec op now pk db = (r, db')"
  shows "map_option status (orders db' oid) = Some (status order) \<and>
         status (destroy_instance now order) = status order"
proof -
  from orders_after_exec [OF assms(3)] assms(1,2)
  have "map_option status (orders db' oid) = Some (status order)" by auto
  moreover from assms(2) have "status (destroy_instance now order) = status order"
    by (auto simp: destroy_instance_def)
  ultimately show ?thesis ..
qed

theorem closed_status_never_changes_witness:
  "orders shop 42 = Some order2 \<and> status order2 = COMPLETED \<and>
   map_option status (orders (snd (exec Cancel 200 42 shop)) 42) = Some COMPLETED \<and>
   orders shop 43 = Some order3 \<and> status order3 = CANCELED \<and>
   map_option status (orders (snd (exec Delete 200 43 shop)) 43) = Some CANCELED \<and>
   status (destroy_instance 200 order3) = CANCELED"
proof -
  have a: "orders shop 42 = Some order2" "status order2 = COMPLETED"
    and b: "orders shop 43 = Some order3" "status order3 = CANCELED"
    by (simp_all add: shop_defs)
  have a': "status order2 \<in> {COMPLETED, CANCELED}" and b': "status order3 \<in> {COMPLETED, CANCELED}"
    by (simp_all add: a b)
  have r1: "exec Cancel 200 42 shop =
      (fst (exec Cancel 200 42 shop), snd (exec Cancel 200 42 shop))"
    and r2: "exec Delete 200 43 shop =
      (fst (exec Delete 200 43 shop), snd (exec Delete 200 43 shop))"
    by simp_all
  from closed_status_never_changes [OF a(1) a' r1] closed_status_never_changes [OF b(1) b' r2] a b
  show ?thesis by simp
qed

text \<open>
  C8. A successful \<open>cancel\<close> was called on a pending order, and the database after it
  is the one before with only that order's \<open>status\<close>, \<open>last_change_at\<close> and
  \<open>last_change_type\<close> written: products, movements and items are the same.
\<close>

theorem cancel_changes_only_status_fields:
  fixes now :: timestamp
  assumes "cancel now pk db = (Inr r, db')"
  shows "\<exists>order. orders db pk = Some order \<and> status order = PENDING \<and>
     db' = db\<lparr>orders := (orders db)(pk \<mapsto> order\<lparr>last_change_type := CHANGE_CANCELED,
                 last_change_at := now, status := CANCELED\<rparr>)\<rparr>"
proof -
  from cancel_cases [OF assms] show ?thesis by auto
qed

theorem cancel_changes_only_status_fields_witness:
  "cancel 200 41 shop =
     (Inr (OrderData (order1\<lparr>status := CANCELED, last_change_at := 200,
                            last_change_type := CHANGE_CANCELED\<rparr>)),
      shop\<lparr>orders := (orders shop)(41 \<mapsto> order1\<lparr>last_change_type := CHANGE_CANCELED,
                 last_change_at := 200, status := CANCELED\<rparr>)\<rparr>) \<and>
   items_of shop 41 = [pens_line, ink_line] \<and>
   order_items (snd (cancel 200 41 shop)) = order_items shop \<and>
   products (snd (cancel 200 41 shop)) = products shop \<and>
   movements (snd (cancel 200 41 shop)) = movements shop"
proof -
  have run: "cancel 200 41 shop =
     (Inr (OrderData (order1\<lparr>status := CANCELED, last_change_at := 200,
                            last_change_type := CHANGE_CANCELED\<rparr>)),
      snd (cancel 200 41 shop))"
    using shop_order1 by (simp add: cancel_def get_object_def Let_def save_status)
  have i: "items_of shop 41 = [pens_line, ink_line]" by (simp add: items_of_def shop_defs)
  from cancel_changes_only_status_fields [OF run] shop_order1 run i
  show ?thesis by auto
qed

text \<open>
  C9. The claim does not hold of the code: \<open>destroy\<close> passes \<open>deleted_at\<close> to
  \<open>save(update_fields=...)\<close>, \<open>Order\<close> declares no such column, so for every existing order
  \<open>save\<close> raises \<open>ValueError\<close> and nothing is written: no soft delete, no forced status,
  no change type \<open>delete\<close>.
\<close>

theorem destroy_raises_value_error:
  "orders db pk = Some order \<Longrightarrow>
   destroy now pk db = (Inl (ValueError [''deleted_at'']), db)"
  by (simp add: destroy_def get_object_def save_deleted_at)

theorem destroy_raises_value_error_witness:
  "orders shop 41 = Some order1 \<and>
   destroy 200 41 shop = (Inl (ValueError [''deleted_at'']), shop)"
  using destroy_raises_value_error [OF shop_order1(1), of 200] shop_order1(1) by simp



end
